theory Spec2Isabelle
  imports Main "HOL-Library.Sublist"
begin

section \<open>The boards list of the gallery (BoardsList.tsx)\<close>

text \<open>
  The component \<^verbatim>\<open>BoardsList\<close> reads the search text and the selected board from the
  store, the boards from the query hook and a feature flag, keeps two pieces of local state
  (\<^verbatim>\<open>boardToDelete\<close>, \<^verbatim>\<open>isSearching\<close>) and returns an element tree. The model below is
  a function from what the hooks return and the local state to that tree, and one function
  per state setter.
\<close>

subsection \<open>Strings\<close>

text \<open>
  A string is a list of code units; the model covers the code units \<open>U+0000\<close> to
  \<open>U+00FF\<close>, one \<^typ>\<open>char\<close> each. On that range \<^verbatim>\<open>String.prototype.toLowerCase\<close> works
  code unit by code unit: \<open>A\<close>--\<open>Z\<close> (65--90) and the Latin-1 capitals 192--222 without
  the multiplication sign 215 move up by 32, every other code unit stays.
\<close>

definition lowerCodeUnit :: "char \<Rightarrow> char" where
  "lowerCodeUnit c =
     (let n = (of_char c :: nat)
      in if (65 \<le> n \<and> n \<le> 90) \<or> (192 \<le> n \<and> n \<le> 222 \<and> n \<noteq> 215)
         then char_of (n + 32) else c)"

definition toLowerCase :: "string \<Rightarrow> string" where
  "toLowerCase s = map lowerCodeUnit s"



text \<open>
  \<^verbatim>\<open>s.includes(t)\<close>: is there a position of \<open>s\<close> at which every code unit of \<open>t\<close>
  matches. \<open>matchesAtStart s t\<close> compares at position 0, \<open>includes_str\<close> tries each position
  from the left, the end of \<open>s\<close> included (where only the empty \<open>t\<close> matches).
\<close>

fun matchesAtStart :: "string \<Rightarrow> string \<Rightarrow> bool" where
  "matchesAtStart s [] = True"
| "matchesAtStart [] (d # t) = False"
| "matchesAtStart (c # s) (d # t) = (c = d \<and> matchesAtStart s t)"

fun includes_str :: "string \<Rightarrow> string \<Rightarrow> bool" where
  "includes_str [] t = matchesAtStart [] t"
| "includes_str (c # s) t = (matchesAtStart (c # s) t \<or> includes_str s t)"

subsection \<open>Data\<close>

text \<open>The two fields of \<^verbatim>\<open>BoardDTO\<close> that the component reads.\<close>

record BoardDTO =
  board_id :: string
  board_name :: string

text \<open>The slices of the store that \<^verbatim>\<open>selector\<close> reads; \<open>None\<close> is \<^verbatim>\<open>null\<close>.\<close>

record boards_slice =
  searchText :: string

record gallery_slice =
  selectedBoardId :: "string option"

record RootState =
  boards :: boards_slice
  gallery :: gallery_slice

definition selector :: "RootState \<Rightarrow> string option \<times> string" where
  "selector s = (selectedBoardId (gallery s), searchText (boards s))"

text \<open>
  What the hooks return in one render: the store's state, the result of
  \<^verbatim>\<open>useListAllBoardsQuery()\<close> (its \<^verbatim>\<open>data\<close> is \<^verbatim>\<open>undefined\<close>, here \<open>None\<close>, until the
  boards are loaded) and the feature status by feature name.
\<close>

record boards_query =
  data :: "BoardDTO list option"

record feature_status =
  isFeatureEnabled :: bool

record hooks =
  storeState :: RootState
  listAllBoardsQuery :: boards_query
  featureStatus :: "string \<Rightarrow> feature_status"

definition useAppSelector :: "hooks \<Rightarrow> (RootState \<Rightarrow> 'a) \<Rightarrow> 'a" where
  "useAppSelector h sel = sel (storeState h)"

definition useListAllBoardsQuery :: "hooks \<Rightarrow> boards_query" where
  "useListAllBoardsQuery h = listAllBoardsQuery h"

definition useFeatureStatus :: "hooks \<Rightarrow> string \<Rightarrow> feature_status" where
  "useFeatureStatus h feature = featureStatus h feature"

record Props =
  isOpen :: bool

text \<open>The two \<^verbatim>\<open>useState\<close> cells, and their values when the component mounts.\<close>

record local_state =
  boardToDelete :: "BoardDTO option"
  isSearching :: bool

definition mount :: local_state where
  "mount = \<lparr>boardToDelete = None, isSearching = False\<rparr>"

subsection \<open>The filtered boards\<close>

text \<open>
  Lines 39--43. The empty string is the falsy search text; \<^verbatim>\<open>boards?.filter(...)\<close> is
  \<^verbatim>\<open>undefined\<close> for the boards \<^verbatim>\<open>undefined\<close>. The specification calls this function
  \<^verbatim>\<open>filterBoards\<close>.
\<close>

definition filteredBoards :: "BoardDTO list option \<Rightarrow> string \<Rightarrow> BoardDTO list option" where
  "filteredBoards bs text =
     (if text \<noteq> []
      then map_option
             (filter (\<lambda>board. includes_str (toLowerCase (board_name board)) (toLowerCase text))) bs
      else bs)"

text \<open>
  The same lines evaluated with the errors that member calls can throw, and with the
  search text possibly absent: a method call on \<^verbatim>\<open>undefined\<close> throws a
  \<^verbatim>\<open>TypeError\<close>, \<^verbatim>\<open>Array.prototype.filter\<close> stops at the first error its callback throws,
  \<^verbatim>\<open>?.\<close> gives \<^verbatim>\<open>undefined\<close> for the receiver \<^verbatim>\<open>undefined\<close>, and \<^verbatim>\<open>undefined\<close> and the empty
  string are the falsy search texts. In the callback the receiver
  \<^verbatim>\<open>board.board_name.toLowerCase()\<close> is evaluated before the argument
  \<^verbatim>\<open>searchText.toLowerCase()\<close>.
\<close>

datatype js_error = TypeError

definition call_toLowerCase :: "string option \<Rightarrow> js_error + string" where
  "call_toLowerCase receiver =
     (case receiver of None \<Rightarrow> Inl TypeError | Some s \<Rightarrow> Inr (toLowerCase s))"

fun Array_filter :: "('a \<Rightarrow> js_error + bool) \<Rightarrow> 'a list \<Rightarrow> js_error + 'a list" where
  "Array_filter callback [] = Inr []"
| "Array_filter callback (x # xs) =
     (case callback x of
        Inl e \<Rightarrow> Inl e
      | Inr keep \<Rightarrow>
          (case Array_filter callback xs of
             Inl e \<Rightarrow> Inl e
           | Inr r \<Rightarrow> Inr (if keep then x # r else r)))"

definition truthy :: "string option \<Rightarrow> bool" where
  "truthy v = (case v of None \<Rightarrow> False | Some s \<Rightarrow> s \<noteq> [])"

definition filteredBoards_checked ::
  "BoardDTO list option \<Rightarrow> string option \<Rightarrow> js_error + BoardDTO list option" where
  "filteredBoards_checked bs text =
     (if truthy text
      then (case bs of
              None \<Rightarrow> Inr None
            | Some arr \<Rightarrow>
                (case Array_filter
                        (\<lambda>board.
                           case call_toLowerCase (Some (board_name board)) of
                             Inl e \<Rightarrow> Inl e
                           | Inr name \<Rightarrow>
                               (case call_toLowerCase text of
                                  Inl e \<Rightarrow> Inl e
                                | Inr t \<Rightarrow> Inr (includes_str name t)))
                        arr of
                   Inl e \<Rightarrow> Inl e
                 | Inr r \<Rightarrow> Inr (Some r)))
      else Inr bs)"

subsection \<open>The state setters\<close>

definition setBoardToDelete :: "BoardDTO option \<Rightarrow> local_state \<Rightarrow> local_state" where
  "setBoardToDelete v st = st\<lparr>boardToDelete := v\<rparr>"

definition setIsSearching :: "bool \<Rightarrow> local_state \<Rightarrow> local_state" where
  "setIsSearching v st = st\<lparr>isSearching := v\<rparr>"

text \<open>Lines 46--48: \<^verbatim>\<open>setIsSearching((v) => !v)\<close>.\<close>

definition handleClickSearchIcon :: "local_state \<Rightarrow> local_state" where
  "handleClickSearchIcon st = st\<lparr>isSearching := \<not> isSearching st\<rparr>"

text \<open>
  Modelled from the spec: the handler of \<^verbatim>\<open>GalleryBoard\<close>, which receives
  \<^verbatim>\<open>setBoardToDelete\<close> (line 139) and is not among the sources. The specification's
  \<^verbatim>\<open>requestDelete(board)\<close> sets the pending board to \<^verbatim>\<open>board\<close>.
\<close>

definition requestDelete :: "BoardDTO \<Rightarrow> local_state \<Rightarrow> local_state" where
  "requestDelete b = setBoardToDelete (Some b)"

text \<open>
  Modelled from the spec: the handler of \<^verbatim>\<open>DeleteBoardModal\<close>, which receives
  \<^verbatim>\<open>setBoardToDelete\<close> (line 149) and is not among the sources. The specification's
  \<^verbatim>\<open>resolveDeleteDialog()\<close> clears the pending board, whether the deletion was confirmed
  or cancelled.
\<close>

definition resolveDeleteDialog :: "local_state \<Rightarrow> local_state" where
  "resolveDeleteDialog = setBoardToDelete None"

text \<open>
  What can change the local state between two renders: a click on the search icon, a call
  of the setter handed to \<^verbatim>\<open>BoardsSearch\<close> (line 80), a call of the setter handed to
  \<^verbatim>\<open>GalleryBoard\<close> and \<^verbatim>\<open>DeleteBoardModal\<close> (lines 139 and 149).
\<close>

datatype event =
  ClickSearchIcon
  | BoardsSearchSetIsSearching bool
  | SetBoardToDelete "BoardDTO option"

fun dispatch :: "event \<Rightarrow> local_state \<Rightarrow> local_state" where
  "dispatch ClickSearchIcon st = handleClickSearchIcon st"
| "dispatch (BoardsSearchSetIsSearching v) st = setIsSearching v st"
| "dispatch (SetBoardToDelete v) st = setBoardToDelete v st"

subsection \<open>The element tree\<close>

datatype element =
  BoardsSearch
  | ButtonGroup "string list"

record motion_div =
  div_key :: string
  child :: element

record GridItem =
  item_key :: string
  board :: BoardDTO
  isSelected :: bool

record view =
  collapse_in :: bool
  presence :: "motion_div list"
  searchIcon_isChecked :: bool
  grid :: "GridItem list"
  modal_boardToDelete :: "BoardDTO option"

text \<open>
  Lines 34--153. \<open>presence\<close> holds the children of \<^verbatim>\<open>AnimatePresence\<close>, \<open>ButtonGroup\<close> the
  \<^verbatim>\<open>board_id\<close> of each \<^verbatim>\<open>SystemBoardButton\<close>, \<open>grid\<close> the children of \<^verbatim>\<open>Grid\<close>:
  \<^verbatim>\<open>filteredBoards && filteredBoards.map(...)\<close> renders nothing for \<^verbatim>\<open>undefined\<close>.
  The styling and the animation of the elements are left out: the view is the tree that
  one call of the component returns.
\<close>

definition BoardsList :: "Props \<Rightarrow> hooks \<Rightarrow> local_state \<Rightarrow> view" where
  "BoardsList props h st =
     (let (selected, text) = useAppSelector h selector;
          bs = data (useListAllBoardsQuery h);
          isBatchEnabled = isFeatureEnabled (useFeatureStatus h ''batches'');
          filtered = filteredBoards bs text
      in \<lparr>collapse_in = isOpen props,
          presence =
            (if isSearching st
             then [\<lparr>div_key = ''boards-search'', child = BoardsSearch\<rparr>]
             else [\<lparr>div_key = ''system-boards-select'',
                    child = ButtonGroup [''images'', ''assets'', ''no_board'']\<rparr>]),
          searchIcon_isChecked = isSearching st,
          grid =
            (case filtered of
               None \<Rightarrow> []
             | Some fs \<Rightarrow>
                 map (\<lambda>b. \<lparr>item_key = board_id b, board = b,
                           isSelected = (selected = Some (board_id b))\<rparr>) fs),
          modal_boardToDelete = boardToDelete st\<rparr>)"

text \<open>
  The views of a run: a render with the hooks' current results, then, for each step, an
  event on the local state and a render with the hooks' results at that time.
\<close>

fun renders :: "Props \<Rightarrow> local_state \<Rightarrow> hooks \<Rightarrow> (event \<times> hooks) list \<Rightarrow> view list" where
  "renders props st h [] = [BoardsList props h st]"
| "renders props st h ((e, h') # run) =
     BoardsList props h st # renders props (dispatch e st) h' run"

subsection \<open>Notions of the specification\<close>

text \<open>
  The specification's case-insensitive containment: the name, lower-cased, contains the
  query, lower-cased, as a substring.
\<close>

definition containsIgnoringCase :: "string \<Rightarrow> string \<Rightarrow> bool" where
  "containsIgnoringCase name q =
     (\<exists>before after. toLowerCase name = before @ toLowerCase q @ after)"




text \<open>What is visible in the region of the search input and the system boards.\<close>

definition showsSearchInput :: "view \<Rightarrow> bool" where
  "showsSearchInput v = list_ex (\<lambda>d. child d = BoardsSearch) (presence v)"

definition showsSystemBoards :: "view \<Rightarrow> bool" where
  "showsSystemBoards v =
     list_ex (\<lambda>d. child d = ButtonGroup [''images'', ''assets'', ''no_board'']) (presence v)"

text \<open>
  Two results of the hooks that differ at most in the feature status, and two runs with
  the same events whose hooks differ at most in the feature status.
\<close>

definition agreeExceptFeatureStatus :: "hooks \<Rightarrow> hooks \<Rightarrow> bool" where
  "agreeExceptFeatureStatus h h' =
     (storeState h = storeState h' \<and> listAllBoardsQuery h = listAllBoardsQuery h')"

definition sameRunExceptFeatureStatus ::
  "(event \<times> hooks) list \<Rightarrow> (event \<times> hooks) list \<Rightarrow> bool" where
  "sameRunExceptFeatureStatus run run' =
     list_all2
       (\<lambda>step step'. fst step = fst step' \<and> agreeExceptFeatureStatus (snd step) (snd step'))
       run run'"

text \<open>The boards of the specification's scenarios, with board \<open>2\<close> selected.\<close>

definition scenarioBoards :: "BoardDTO list" where
  "scenarioBoards =
     [\<lparr>board_id = ''1'', board_name = ''Vacation''\<rparr>,
      \<lparr>board_id = ''2'', board_name = ''Work''\<rparr>,
      \<lparr>board_id = ''3'', board_name = ''vac2''\<rparr>]"

definition scenarioHooks :: hooks where
  "scenarioHooks =
     \<lparr>storeState = \<lparr>boards = \<lparr>searchText = ''''\<rparr>, gallery = \<lparr>selectedBoardId = Some ''2''\<rparr>\<rparr>,
      listAllBoardsQuery = \<lparr>data = Some scenarioBoards\<rparr>,
      featureStatus = (\<lambda>feature. \<lparr>isFeatureEnabled = False\<rparr>)\<rparr>"

section \<open>Strings: lower case and containment\<close>


lemma lowerCodeUnit_idem: "lowerCodeUnit (lowerCodeUnit c) = lowerCodeUnit c"
  by (auto simp add: lowerCodeUnit_def Let_def)

lemma toLowerCase_idem: "toLowerCase (toLowerCase s) = toLowerCase s"
  by (simp add: toLowerCase_def lowerCodeUnit_idem)






lemma matchesAtStart_prefix: "matchesAtStart s t \<longleftrightarrow> prefix t s"
  by (induction s t rule: matchesAtStart.induct) auto

lemma includes_str_sublist: "includes_str s t \<longleftrightarrow> sublist t s"
  by (induction s) (auto simp: matchesAtStart_prefix sublist_Cons_right)

lemma includes_str_containsIgnoringCase:
  "includes_str (toLowerCase name) (toLowerCase q) \<longleftrightarrow> containsIgnoringCase name q"
  by (simp add: includes_str_sublist sublist_def containsIgnoringCase_def)

lemma containsIgnoringCase_Nil: "containsIgnoringCase name []"
  using includes_str_containsIgnoringCase [of name "[]"]
  by (simp add: includes_str_sublist toLowerCase_def)

text \<open>
  Read code unit by code unit: the name contains the query ignoring case when, at some
  offset of the name, each code unit of the query and the code unit of the name facing it
  have the same lower case.
\<close>

lemma containsIgnoringCase_offset:
  "containsIgnoringCase name q \<longleftrightarrow>
     (\<exists>i. i + length q \<le> length name
        \<and> (\<forall>j<length q. lowerCodeUnit (name ! (i + j)) = lowerCodeUnit (q ! j)))"
proof
  assume "containsIgnoringCase name q"
  then obtain before after where eq: "toLowerCase name = before @ toLowerCase q @ after"
    by (auto simp: containsIgnoringCase_def)
  then have len: "length name = length before + length q + length after"
    by (metis length_append length_map toLowerCase_def add.assoc)
  have "lowerCodeUnit (name ! (length before + j)) = lowerCodeUnit (q ! j)" if "j < length q" for j
  proof -
    from eq have "map lowerCodeUnit name ! (length before + j) = map lowerCodeUnit q ! j"
      using that by (simp add: nth_append toLowerCase_def)
    with that len show ?thesis
      by simp
  qed
  with len show "\<exists>i. i + length q \<le> length name
        \<and> (\<forall>j<length q. lowerCodeUnit (name ! (i + j)) = lowerCodeUnit (q ! j))"
    by (intro exI [of _ "length before"]) simp
next
  assume "\<exists>i. i + length q \<le> length name
        \<and> (\<forall>j<length q. lowerCodeUnit (name ! (i + j)) = lowerCodeUnit (q ! j))"
  then obtain i where i: "i + length q \<le> length name"
    and same: "\<forall>j<length q. lowerCodeUnit (name ! (i + j)) = lowerCodeUnit (q ! j)"
    by blast
  have mid: "take (length q) (drop i (toLowerCase name)) = toLowerCase q"
    using i same by (intro nth_equalityI) (simp_all add: toLowerCase_def)
  have "toLowerCase name =
          take i (toLowerCase name) @ take (length q) (drop i (toLowerCase name))
            @ drop (length q) (drop i (toLowerCase name))"
    by (simp only: append_take_drop_id)
  with mid show "containsIgnoringCase name q"
    unfolding containsIgnoringCase_def by metis
qed

section \<open>The filtered boards\<close>

lemma filteredBoards_Some:
  "filteredBoards (Some bs) q = Some (filter (\<lambda>b. containsIgnoringCase (board_name b) q) bs)"
proof (cases "q = []")
  case True
  then show ?thesis by (simp add: filteredBoards_def containsIgnoringCase_Nil)
next
  case False
  then show ?thesis by (simp add: filteredBoards_def includes_str_containsIgnoringCase)
qed

lemma scenario_vac:
  "filteredBoards (Some scenarioBoards) ''vac'' =
     Some [\<lparr>board_id = ''1'', board_name = ''Vacation''\<rparr>,
           \<lparr>board_id = ''3'', board_name = ''vac2''\<rparr>]"
  by code_simp

lemma scenario_VAC:
  "filteredBoards (Some scenarioBoards) ''VAC'' =
     Some [\<lparr>board_id = ''1'', board_name = ''Vacation''\<rparr>,
           \<lparr>board_id = ''3'', board_name = ''vac2''\<rparr>]"
  by code_simp




lemma Array_filter_total: "Array_filter (\<lambda>x. Inr (p x)) xs = Inr (filter p xs)"
  by (induction xs) simp_all

lemma filteredBoards_checked_eq:
  "filteredBoards_checked B query =
     Inr (filteredBoards B (case query of None \<Rightarrow> [] | Some s \<Rightarrow> s))"
proof (cases query)
  case None
  then show ?thesis
    by (simp add: filteredBoards_checked_def truthy_def filteredBoards_def)
next
  case (Some s)
  then show ?thesis
    by (cases B)
      (simp_all add: filteredBoards_checked_def truthy_def filteredBoards_def
        call_toLowerCase_def Array_filter_total)
qed

text \<open>
  Claim C1. For every list of boards \<open>bs\<close> and every query \<open>q\<close>, the filtered boards are a
  list \<open>r\<close> such that every board of \<open>r\<close> has a name that contains \<open>q\<close> ignoring case, every
  board of \<open>bs\<close> that is not in \<open>r\<close> has a name that does not, the boards of \<open>r\<close> are boards
  of \<open>bs\<close>, and \<open>r\<close> keeps the order of \<open>bs\<close>: it is a subsequence of \<open>bs\<close>, namely \<open>bs\<close>
  without the excluded boards.
\<close>

theorem filteredBoards_sound_complete:
  "\<exists>r. filteredBoards (Some bs) q = Some r
      \<and> (\<forall>b \<in> set r. containsIgnoringCase (board_name b) q)
      \<and> (\<forall>b \<in> set bs. b \<notin> set r \<longrightarrow> \<not> containsIgnoringCase (board_name b) q)
      \<and> set r \<subseteq> set bs
      \<and> subseq r bs
      \<and> r = filter (\<lambda>b. b \<in> set r) bs"
proof -
  let ?r = "filter (\<lambda>b. containsIgnoringCase (board_name b) q) bs"
  have "filteredBoards (Some bs) q = Some ?r"
    by (rule filteredBoards_Some)
  moreover have "\<forall>b \<in> set ?r. containsIgnoringCase (board_name b) q"
    by simp
  moreover have "\<forall>b \<in> set bs. b \<notin> set ?r \<longrightarrow> \<not> containsIgnoringCase (board_name b) q"
    by simp
  moreover have "set ?r \<subseteq> set bs"
    by auto
  moreover have "subseq ?r bs"
    by simp
  moreover have "?r = filter (\<lambda>b. b \<in> set ?r) bs"
    by (rule filter_cong) auto
  ultimately show ?thesis
    by blast
qed

theorem filteredBoards_sound_complete_witness:
  "filteredBoards (Some scenarioBoards) ''vac'' =
     Some [\<lparr>board_id = ''1'', board_name = ''Vacation''\<rparr>,
           \<lparr>board_id = ''3'', board_name = ''vac2''\<rparr>]
   \<and> containsIgnoringCase ''Vacation'' ''vac''
   \<and> containsIgnoringCase ''vac2'' ''vac''
   \<and> \<not> containsIgnoringCase ''Work'' ''vac''"
  using filteredBoards_sound_complete [of scenarioBoards "''vac''"] scenario_vac
  by (simp add: scenarioBoards_def)

text \<open>
  Claim C2. Filtering with the empty query is the identity: the result is the boards as
  they were given, in the same order (and absent when they were absent).
\<close>

theorem filteredBoards_empty_query: "filteredBoards B [] = B"
  by (simp add: filteredBoards_def)

theorem filteredBoards_empty_query_witness:
  "filteredBoards (Some scenarioBoards) '''' = Some scenarioBoards
   \<and> filteredBoards None '''' = None"
  using filteredBoards_empty_query [of "Some scenarioBoards"] filteredBoards_empty_query [of None]
  by simp




section \<open>The rendered view\<close>

lemma grid_BoardsList:
  "grid (BoardsList props h st) =
     (case filteredBoards (data (listAllBoardsQuery h)) (searchText (boards (storeState h))) of
        None \<Rightarrow> []
      | Some fs \<Rightarrow>
          map (\<lambda>b. \<lparr>item_key = board_id b, board = b,
                    isSelected = (selectedBoardId (gallery (storeState h)) = Some (board_id b))\<rparr>)
            fs)"
  by (simp add: BoardsList_def useAppSelector_def selector_def useListAllBoardsQuery_def)

lemma presence_BoardsList:
  "presence (BoardsList props h st) =
     (if isSearching st
      then [\<lparr>div_key = ''boards-search'', child = BoardsSearch\<rparr>]
      else [\<lparr>div_key = ''system-boards-select'',
             child = ButtonGroup [''images'', ''assets'', ''no_board'']\<rparr>])"
  by (simp add: BoardsList_def useAppSelector_def selector_def)

lemma modal_BoardsList: "modal_boardToDelete (BoardsList props h st) = boardToDelete st"
  by (simp add: BoardsList_def useAppSelector_def selector_def)

lemma BoardsList_agree:
  assumes "agreeExceptFeatureStatus h h'"
  shows "BoardsList props h st = BoardsList props h' st"
  using assms
  by (simp add: agreeExceptFeatureStatus_def BoardsList_def useAppSelector_def
      useListAllBoardsQuery_def)

text \<open>
  Read as "the result is the empty list or the boards in full", the statement about every
  combination of boards and query does not hold of the component: for the three boards of
  the scenario, which are not empty, and the query \<open>vac\<close>, which is not empty, the
  filtered boards are two of the three.
\<close>

theorem filteredBoards_neither_empty_nor_full_counterexample:
  "scenarioBoards \<noteq> []
   \<and> ''vac'' \<noteq> ''''
   \<and> filteredBoards (Some scenarioBoards) ''vac'' \<noteq> None
   \<and> filteredBoards (Some scenarioBoards) ''vac'' \<noteq> Some []
   \<and> filteredBoards (Some scenarioBoards) ''vac'' \<noteq> Some scenarioBoards"
  using scenario_vac
  by (simp add: scenarioBoards_def)

text \<open>
  Claim C4, amended. For every combination of absent, empty or non-empty boards and of
  absent, empty or non-empty search text, the evaluation of lines 39--43 throws no error
  and gives the filtered boards: absent boards stay absent for every query, an empty list
  of boards gives the empty list, the empty query gives the boards in full, and a list of
  boards with a query gives the list of the boards whose name contains the query ignoring
  case, in their order (empty, full or neither). When the boards are absent the grid has
  no cell.
\<close>

theorem filteredBoards_total:
  "filteredBoards_checked B query =
     Inr (filteredBoards B (case query of None \<Rightarrow> [] | Some s \<Rightarrow> s))
   \<and> filteredBoards None q = None
   \<and> filteredBoards (Some []) q = Some []
   \<and> filteredBoards B [] = B
   \<and> filteredBoards (Some bs) q = Some (filter (\<lambda>b. containsIgnoringCase (board_name b) q) bs)
   \<and> (data (listAllBoardsQuery h) = None \<longrightarrow> grid (BoardsList props h st) = [])"
proof -
  have absent: "filteredBoards None t = None" for t
    by (simp add: filteredBoards_def)
  have "data (listAllBoardsQuery h) = None \<longrightarrow> grid (BoardsList props h st) = []"
    by (simp add: grid_BoardsList absent)
  moreover have "filteredBoards (Some []) q = Some []"
    by (simp add: filteredBoards_def)
  moreover have "filteredBoards B [] = B"
    by (simp add: filteredBoards_def)
  moreover have
    "filteredBoards (Some bs) q = Some (filter (\<lambda>b. containsIgnoringCase (board_name b) q) bs)"
    by (rule filteredBoards_Some)
  moreover have "filteredBoards_checked B query =
     Inr (filteredBoards B (case query of None \<Rightarrow> [] | Some s \<Rightarrow> s))"
    by (rule filteredBoards_checked_eq)
  ultimately show ?thesis
    using absent by blast
qed

theorem filteredBoards_total_witness:
  "data (listAllBoardsQuery (scenarioHooks\<lparr>listAllBoardsQuery := \<lparr>data = None\<rparr>\<rparr>)) = None
   \<and> grid (BoardsList \<lparr>isOpen = True\<rparr> (scenarioHooks\<lparr>listAllBoardsQuery := \<lparr>data = None\<rparr>\<rparr>) mount)
       = []
   \<and> filteredBoards None ''vac'' = None
   \<and> filteredBoards_checked None (Some ''vac'') = Inr None
   \<and> filteredBoards_checked (Some scenarioBoards) None = Inr (Some scenarioBoards)
   \<and> filteredBoards_checked (Some scenarioBoards) (Some ''vac'') =
       Inr (Some [\<lparr>board_id = ''1'', board_name = ''Vacation''\<rparr>,
                  \<lparr>board_id = ''3'', board_name = ''vac2''\<rparr>])"
  using filteredBoards_total
    [where q = "''vac''" and B = None and query = "Some ''vac''"
       and h = "scenarioHooks\<lparr>listAllBoardsQuery := \<lparr>data = None\<rparr>\<rparr>"
       and props = "\<lparr>isOpen = True\<rparr>" and st = mount]
    filteredBoards_total [where B = "Some scenarioBoards" and query = None]
    filteredBoards_total [where B = "Some scenarioBoards" and query = "Some ''vac''"]
    scenario_vac
  by (simp add: filteredBoards_def)

text \<open>
  Claim C5. One click on the search icon always flips \<open>isSearching\<close>, and with it the
  child shown in the region of the search input; two clicks give back the local state,
  and so the view, that the component had before.
\<close>

theorem handleClickSearchIcon_involutive:
  "handleClickSearchIcon (handleClickSearchIcon st) = st
   \<and> isSearching (handleClickSearchIcon st) = (\<not> isSearching st)
   \<and> BoardsList props h (handleClickSearchIcon (handleClickSearchIcon st)) = BoardsList props h st
   \<and> presence (BoardsList props h (handleClickSearchIcon st)) \<noteq> presence (BoardsList props h st)"
proof -
  have twice: "handleClickSearchIcon (handleClickSearchIcon st) = st"
    by (simp add: handleClickSearchIcon_def)
  have flip: "isSearching (handleClickSearchIcon st) = (\<not> isSearching st)"
    by (simp add: handleClickSearchIcon_def)
  have "presence (BoardsList props h (handleClickSearchIcon st)) \<noteq> presence (BoardsList props h st)"
    by (simp add: presence_BoardsList flip)
  with twice flip show ?thesis
    by simp
qed

theorem handleClickSearchIcon_involutive_witness:
  "handleClickSearchIcon (handleClickSearchIcon mount) = mount
   \<and> isSearching (handleClickSearchIcon mount)
   \<and> \<not> isSearching mount"
  using handleClickSearchIcon_involutive
    [where st = mount and props = "\<lparr>isOpen = True\<rparr>" and h = scenarioHooks]
  by (simp add: mount_def)

section \<open>The local state\<close>

text \<open>
  The statement that only a click on the search icon changes which of the two children
  is shown does not hold of the component: the setter \<^verbatim>\<open>setIsSearching\<close> is also handed to
  \<^verbatim>\<open>BoardsSearch\<close> (line 80). After one click the search input is shown, and a call
  \<^verbatim>\<open>setIsSearching(false)\<close> from it brings the system boards back without a click on the
  icon.
\<close>

theorem search_region_only_toggle_counterexample:
  "\<not> (\<forall>props h e st.
         presence (BoardsList props h (dispatch e st)) \<noteq> presence (BoardsList props h st)
         \<longrightarrow> e = ClickSearchIcon)"
proof
  assume only_click: "\<forall>props h e st.
         presence (BoardsList props h (dispatch e st)) \<noteq> presence (BoardsList props h st)
         \<longrightarrow> e = ClickSearchIcon"
  have "presence (BoardsList \<lparr>isOpen = True\<rparr> scenarioHooks
            (dispatch (BoardsSearchSetIsSearching False) (handleClickSearchIcon mount)))
        \<noteq> presence (BoardsList \<lparr>isOpen = True\<rparr> scenarioHooks (handleClickSearchIcon mount))"
    by (simp add: presence_BoardsList setIsSearching_def handleClickSearchIcon_def mount_def)
  with only_click have "BoardsSearchSetIsSearching False = ClickSearchIcon"
    by blast
  then show False
    by simp
qed

text \<open>
  Claim C6, amended. In every state of the component exactly one child is rendered in
  the region: the search input when \<open>isSearching\<close> is true and the button group of the
  three system boards \<open>images\<close>, \<open>assets\<close>, \<open>no_board\<close> when it is false, never both and
  never neither; the component mounts showing the system boards; a click on the search
  icon always flips \<open>isSearching\<close>; and an event that changes \<open>isSearching\<close> is either that
  click or a call, by \<^verbatim>\<open>BoardsSearch\<close>, of the setter it was handed, with the opposite
  value.
\<close>

theorem search_region_exclusive:
  "showsSearchInput (BoardsList props h st) = isSearching st
   \<and> showsSystemBoards (BoardsList props h st) = (\<not> isSearching st)
   \<and> showsSearchInput (BoardsList props h st) \<noteq> showsSystemBoards (BoardsList props h st)
   \<and> length (presence (BoardsList props h st)) = 1
   \<and> showsSystemBoards (BoardsList props h mount)
   \<and> isSearching (dispatch ClickSearchIcon st) = (\<not> isSearching st)
   \<and> (isSearching (dispatch e st) \<noteq> isSearching st
        \<longrightarrow> e = ClickSearchIcon \<or> e = BoardsSearchSetIsSearching (\<not> isSearching st))"
proof -
  have "isSearching (dispatch e st) \<noteq> isSearching st
        \<longrightarrow> e = ClickSearchIcon \<or> e = BoardsSearchSetIsSearching (\<not> isSearching st)"
    by (cases e) (auto simp: setIsSearching_def setBoardToDelete_def)
  then show ?thesis
    by (simp add: showsSearchInput_def showsSystemBoards_def presence_BoardsList
        mount_def handleClickSearchIcon_def)
qed

theorem search_region_exclusive_witness:
  "isSearching (dispatch (BoardsSearchSetIsSearching False) (handleClickSearchIcon mount))
     \<noteq> isSearching (handleClickSearchIcon mount)
   \<and> showsSearchInput (BoardsList \<lparr>isOpen = True\<rparr> scenarioHooks (handleClickSearchIcon mount))
   \<and> \<not> showsSystemBoards (BoardsList \<lparr>isOpen = True\<rparr> scenarioHooks (handleClickSearchIcon mount))
   \<and> showsSystemBoards (BoardsList \<lparr>isOpen = True\<rparr> scenarioHooks mount)
   \<and> \<not> showsSearchInput (BoardsList \<lparr>isOpen = True\<rparr> scenarioHooks mount)"
  using search_region_exclusive
    [where props = "\<lparr>isOpen = True\<rparr>" and h = scenarioHooks
       and st = "handleClickSearchIcon mount" and e = "BoardsSearchSetIsSearching False"]
    search_region_exclusive
    [where props = "\<lparr>isOpen = True\<rparr>" and h = scenarioHooks and st = mount
       and e = ClickSearchIcon]
  by (simp add: handleClickSearchIcon_def mount_def setIsSearching_def)

text \<open>
  Claim C7. The setter stores its argument in \<open>boardToDelete\<close>. So, for every board
  \<open>b\<close>, \<open>requestDelete b\<close> sets \<open>boardToDelete\<close> to \<open>b\<close>; a following
  \<open>resolveDeleteDialog\<close> sets it to absent, as it does from every state; the component
  mounts with \<open>boardToDelete\<close> absent; and the delete dialog is given the current value
  each time.
\<close>

theorem boardToDelete_request_resolve:
  "boardToDelete (setBoardToDelete v st) = v
   \<and> boardToDelete (requestDelete b st) = Some b
   \<and> boardToDelete (resolveDeleteDialog (requestDelete b st)) = None
   \<and> boardToDelete (resolveDeleteDialog st) = None
   \<and> boardToDelete mount = None
   \<and> modal_boardToDelete (BoardsList props h (requestDelete b st)) = Some b
   \<and> modal_boardToDelete (BoardsList props h (resolveDeleteDialog st)) = None
   \<and> modal_boardToDelete (BoardsList props h mount) = None"
  by (simp add: requestDelete_def resolveDeleteDialog_def setBoardToDelete_def mount_def
      modal_BoardsList)

theorem boardToDelete_request_resolve_witness:
  "boardToDelete (requestDelete \<lparr>board_id = ''2'', board_name = ''Work''\<rparr> mount)
     = Some \<lparr>board_id = ''2'', board_name = ''Work''\<rparr>
   \<and> resolveDeleteDialog (requestDelete \<lparr>board_id = ''2'', board_name = ''Work''\<rparr> mount) = mount"
  using boardToDelete_request_resolve
    [where b = "\<lparr>board_id = ''2'', board_name = ''Work''\<rparr>" and st = mount
       and props = "\<lparr>isOpen = True\<rparr>" and h = scenarioHooks]
  by (simp add: requestDelete_def resolveDeleteDialog_def setBoardToDelete_def mount_def)

text \<open>
  Claim C8. Every cell of the grid is marked selected exactly when the selected board of
  the store equals the id of the cell's board; with the selected board \<open>2\<close>, exactly the
  cells of the board with id \<open>2\<close> are marked. The cells are the filtered boards, in
  their order.
\<close>

theorem isSelected_iff:
  "(\<forall>item \<in> set (grid (BoardsList props h st)).
       isSelected item = (selectedBoardId (gallery (storeState h)) = Some (board_id (board item))))
   \<and> (selectedBoardId (gallery (storeState h)) = Some ''2'' \<longrightarrow>
        (\<forall>item \<in> set (grid (BoardsList props h st)).
           isSelected item = (board_id (board item) = ''2'')))
   \<and> map board (grid (BoardsList props h st))
        = (case filteredBoards (data (listAllBoardsQuery h)) (searchText (boards (storeState h))) of
             None \<Rightarrow> []
           | Some fs \<Rightarrow> fs)"
  by (auto simp: grid_BoardsList comp_def split: option.splits)

theorem isSelected_iff_witness:
  "selectedBoardId (gallery (storeState scenarioHooks)) = Some ''2''
   \<and> map (\<lambda>item. (board_id (board item), isSelected item))
         (grid (BoardsList \<lparr>isOpen = True\<rparr> scenarioHooks mount))
       = [(''1'', False), (''2'', True), (''3'', False)]"
  using isSelected_iff [where props = "\<lparr>isOpen = True\<rparr>" and h = scenarioHooks and st = mount]
  by (simp add: scenarioHooks_def scenarioBoards_def grid_BoardsList filteredBoards_def)

text \<open>
  Claim C9. The view does not depend on the feature status: two renders whose hooks
  differ at most in the feature status give the same view, and two runs with the same
  events whose hooks differ at most in the feature status give the same views, render by
  render (the filtered boards, the cells and their marks, and the local state that the
  views show).
\<close>

theorem isBatchEnabled_unused:
  assumes "agreeExceptFeatureStatus h h'"
    and "sameRunExceptFeatureStatus run run'"
  shows "BoardsList props h st = BoardsList props h' st
       \<and> renders props st h run = renders props st h' run'"
proof
  show "BoardsList props h st = BoardsList props h' st"
    using assms(1) by (rule BoardsList_agree)
  from assms(2) have "list_all2
       (\<lambda>step step'. fst step = fst step' \<and> agreeExceptFeatureStatus (snd step) (snd step'))
       run run'"
    by (simp add: sameRunExceptFeatureStatus_def)
  then show "renders props st h run = renders props st h' run'"
    using assms(1)
  proof (induction arbitrary: st h h' rule: list_all2_induct)
    case Nil
    then show ?case
      by (simp add: BoardsList_agree)
  next
    case (Cons step run step' run')
    obtain e k where step: "step = (e, k)"
      by (cases step)
    obtain e' k' where step': "step' = (e', k')"
      by (cases step')
    from Cons.hyps(1) step step' have same: "e' = e" "agreeExceptFeatureStatus k k'"
      by simp_all
    have "renders props (dispatch e st) k run = renders props (dispatch e st) k' run'"
      using same(2) by (rule Cons.IH)
    with Cons.prems same(1) step step' show ?case
      by (simp add: BoardsList_agree)
  qed
qed

theorem isBatchEnabled_unused_witness:
  "agreeExceptFeatureStatus scenarioHooks
     (scenarioHooks\<lparr>featureStatus := (\<lambda>feature. \<lparr>isFeatureEnabled = True\<rparr>)\<rparr>)
   \<and> sameRunExceptFeatureStatus [(ClickSearchIcon, scenarioHooks)]
       [(ClickSearchIcon, scenarioHooks\<lparr>featureStatus := (\<lambda>feature. \<lparr>isFeatureEnabled = True\<rparr>)\<rparr>)]
   \<and> BoardsList \<lparr>isOpen = True\<rparr> scenarioHooks mount
       = BoardsList \<lparr>isOpen = True\<rparr>
           (scenarioHooks\<lparr>featureStatus := (\<lambda>feature. \<lparr>isFeatureEnabled = True\<rparr>)\<rparr>) mount
   \<and> renders \<lparr>isOpen = True\<rparr> mount scenarioHooks [(ClickSearchIcon, scenarioHooks)]
       = renders \<lparr>isOpen = True\<rparr> mount
           (scenarioHooks\<lparr>featureStatus := (\<lambda>feature. \<lparr>isFeatureEnabled = True\<rparr>)\<rparr>)
           [(ClickSearchIcon, scenarioHooks\<lparr>featureStatus := (\<lambda>feature. \<lparr>isFeatureEnabled = True\<rparr>)\<rparr>)]"
proof -
  have agree: "agreeExceptFeatureStatus scenarioHooks
     (scenarioHooks\<lparr>featureStatus := (\<lambda>feature. \<lparr>isFeatureEnabled = True\<rparr>)\<rparr>)"
    by (simp add: agreeExceptFeatureStatus_def)
  have run: "sameRunExceptFeatureStatus [(ClickSearchIcon, scenarioHooks)]
       [(ClickSearchIcon, scenarioHooks\<lparr>featureStatus := (\<lambda>feature. \<lparr>isFeatureEnabled = True\<rparr>)\<rparr>)]"
    by (simp add: sameRunExceptFeatureStatus_def agreeExceptFeatureStatus_def)
  show ?thesis
    using agree run
      isBatchEnabled_unused [OF agree run, where props = "\<lparr>isOpen = True\<rparr>" and st = mount]
    by simp
qed

text \<open>
  Claim C10. A click on the search icon leaves \<open>boardToDelete\<close>, the board given to the
  delete dialog and the grid of the filtered boards as they were. The setter of
  \<open>boardToDelete\<close>, whatever its argument, and so \<open>requestDelete\<close> and
  \<open>resolveDeleteDialog\<close>, leaves \<open>isSearching\<close>, the child shown in the search region and
  the grid of the filtered boards as they were.
\<close>

theorem setters_frame:
  "boardToDelete (handleClickSearchIcon st) = boardToDelete st
   \<and> grid (BoardsList props h (handleClickSearchIcon st)) = grid (BoardsList props h st)
   \<and> modal_boardToDelete (BoardsList props h (handleClickSearchIcon st))
       = modal_boardToDelete (BoardsList props h st)
   \<and> isSearching (setBoardToDelete v st) = isSearching st
   \<and> grid (BoardsList props h (setBoardToDelete v st)) = grid (BoardsList props h st)
   \<and> presence (BoardsList props h (setBoardToDelete v st)) = presence (BoardsList props h st)
   \<and> isSearching (requestDelete b st) = isSearching st
   \<and> grid (BoardsList props h (requestDelete b st)) = grid (BoardsList props h st)
   \<and> isSearching (resolveDeleteDialog st) = isSearching st
   \<and> grid (BoardsList props h (resolveDeleteDialog st)) = grid (BoardsList props h st)"
  by (simp add: handleClickSearchIcon_def setBoardToDelete_def requestDelete_def
      resolveDeleteDialog_def grid_BoardsList presence_BoardsList modal_BoardsList)

theorem setters_frame_witness:
  "boardToDelete
      (handleClickSearchIcon (requestDelete \<lparr>board_id = ''2'', board_name = ''Work''\<rparr> mount))
     = Some \<lparr>board_id = ''2'', board_name = ''Work''\<rparr>
   \<and> isSearching (resolveDeleteDialog (handleClickSearchIcon mount))"
  using setters_frame
    [where st = "requestDelete \<lparr>board_id = ''2'', board_name = ''Work''\<rparr> mount"
       and props = "\<lparr>isOpen = True\<rparr>" and h = scenarioHooks and v = None
       and b = "\<lparr>board_id = ''2'', board_name = ''Work''\<rparr>"]
    setters_frame
    [where st = "handleClickSearchIcon mount" and props = "\<lparr>isOpen = True\<rparr>"
       and h = scenarioHooks and v = None
       and b = "\<lparr>board_id = ''2'', board_name = ''Work''\<rparr>"]
  by (simp add: handleClickSearchIcon_def requestDelete_def resolveDeleteDialog_def
      setBoardToDelete_def mount_def)

end
